theory Spec2Isabelle
  imports Complex_Main "HOL-Library.Multiset"
begin

section \<open>Resource monitor: graph\_pidstat.py\<close>

text \<open>
  A shallow embedding of \<^verbatim>\<open>make_pidstat_tables\<close> and of the data part of
  \<^verbatim>\<open>graph_pidstat\<close> (the merge of the three tables and the run summary) from
  \<^verbatim>\<open>utils/resource-monitor/graph_pidstat.py\<close>.

  Conventions of the model:
  \<^item> a file is the list of its lines, \<open>None\<close> when the path does not exist;
  \<^item> a Python float is a real number or \<open>NaN\<close>; rounding error and infinities are
    not modelled;
  \<^item> every exception the code can raise on the way is a value of \<open>error\<close>;
  \<^item> the two things the module takes from outside are parameters: \<open>to_float\<close>, the
    conversion of a token by \<^verbatim>\<open>float(x)\<close> (\<open>None\<close> where it raises ValueError), and
    \<open>machine_mem\<close>, the value of \<^verbatim>\<open>get_machine_mem()\<close>;
  \<^item> a data frame is the list of its rows, each row the value of the column
    \<^verbatim>\<open>Seconds Elapsed\<close> paired with the other columns.
\<close>

subsection \<open>Values\<close>

datatype error = FileNotFoundError | IndexError | ValueError | TypeError

datatype pyfloat = NaN | Num real

text \<open>A cell of the frame while its columns still hold Python objects.\<close>

datatype cell = NoneCell | Str string | Flt pyfloat

record 'a usage =
  cpu :: 'a
  mem :: 'a
  kbs_read :: 'a
  kbs_written :: 'a

type_synonym 'a frame = "(nat \<times> 'a) list"

subsection \<open>Strings\<close>

definition isdigit :: "char \<Rightarrow> bool" where
  "isdigit c = (c \<in> set ''0123456789'')"

text \<open>The ASCII characters \<^verbatim>\<open>str.split()\<close> treats as white space.\<close>

definition isspace :: "char \<Rightarrow> bool" where
  "isspace c = (let n = (of_char c :: nat) in (9 \<le> n \<and> n \<le> 13) \<or> (28 \<le> n \<and> n \<le> 32))"

text \<open>\<^verbatim>\<open>line.split()\<close>: the maximal runs of characters that are not white space;
  \<open>w\<close> is the run being read.\<close>

fun split_run :: "string \<Rightarrow> string \<Rightarrow> string list" where
  "split_run w [] = (if w = [] then [] else [w])"
| "split_run w (c # cs) =
     (if isspace c then (if w = [] then split_run [] cs else w # split_run [] cs)
      else split_run (w @ [c]) cs)"

definition split :: "string \<Rightarrow> string list" where
  "split line = split_run [] line"

subsection \<open>Reading the raw file (lines 148 to 173)\<close>

text \<open>
  \<^verbatim>\<open>del usage[:8]; del usage[9:]; del usage[1:6]\<close>: Python slices never raise, a short
  list just gives a short result.
\<close>

definition window :: "string list \<Rightarrow> string list" where
  "window usage = (let u = drop 8 usage; u = take 9 u in take 1 u @ drop 6 u)"

text \<open>
  The loop over the lines, with the counter \<^verbatim>\<open>seconds_elapsed\<close> as argument; the
  result is \<^verbatim>\<open>total_usage\<close>, in the order of the lines. \<^verbatim>\<open>line[0]\<close> raises
  IndexError on an empty string and so does \<^verbatim>\<open>usage[-3]\<close> on fewer than three tokens.
\<close>

fun scan_lines :: "string \<Rightarrow> nat \<Rightarrow> string list \<Rightarrow> error + (nat \<times> string list) list" where
  "scan_lines type seconds_elapsed [] = Inr []"
| "scan_lines type seconds_elapsed (line # rest) =
     (case line of
        [] \<Rightarrow> Inl IndexError
      | c # _ \<Rightarrow>
          if isdigit c then
            (let usage = split line in
             if type = ''DB'' \<and> length usage < 3 then Inl IndexError
             else if type = ''DB'' \<and> usage ! (length usage - 3) \<noteq> ''hapi''
               then scan_lines type seconds_elapsed rest
             else (case scan_lines type seconds_elapsed rest of
                     Inl e \<Rightarrow> Inl e
                   | Inr total_usage \<Rightarrow> Inr ((seconds_elapsed, window usage) # total_usage)))
          else if c = CHR ''#'' then scan_lines type (seconds_elapsed + 1) rest
          else scan_lines type seconds_elapsed rest)"

subsection \<open>Building the frame (lines 175 to 191)\<close>

text \<open>Running a fallible function over a list stops at the first error.\<close>

fun map_err :: "('a \<Rightarrow> error + 'b) \<Rightarrow> 'a list \<Rightarrow> error + 'b list" where
  "map_err f [] = Inr []"
| "map_err f (x # xs) =
     (case f x of
        Inl e \<Rightarrow> Inl e
      | Inr y \<Rightarrow> (case map_err f xs of Inl e \<Rightarrow> Inl e | Inr ys \<Rightarrow> Inr (y # ys)))"

text \<open>
  \<^verbatim>\<open>pandas.DataFrame(total_usage, columns=[...])\<close> with five column names: no row
  gives the empty frame; otherwise the rows are padded with \<^verbatim>\<open>None\<close> to the longest
  one, and a width other than five raises ValueError. A row is the counter followed by
  the tokens of its window, so its length is one more than the number of tokens.
\<close>

definition pad_row :: "string list \<Rightarrow> cell usage" where
  "pad_row u =
     (let cs = map Str u @ replicate (4 - length u) NoneCell
      in \<lparr>cpu = cs ! 0, mem = cs ! 1, kbs_read = cs ! 2, kbs_written = cs ! 3\<rparr>)"

definition DataFrame :: "(nat \<times> string list) list \<Rightarrow> error + cell usage frame" where
  "DataFrame total_usage =
     (if total_usage = [] then Inr []
      else if Max (set (map (\<lambda>(s, u). Suc (length u)) total_usage)) \<noteq> 5 then Inl ValueError
      else Inr (map (\<lambda>(s, u). (s, pad_row u)) total_usage))"

text \<open>\<^verbatim>\<open>float(x) / 100 * get_machine_mem()\<close> on one cell of the MEM column.\<close>

fun scale_mem :: "int \<Rightarrow> pyfloat \<Rightarrow> pyfloat" where
  "scale_mem machine_mem NaN = NaN"
| "scale_mem machine_mem (Num x) = Num (x / 100 * of_int machine_mem)"

fun mem_to_gb :: "(string \<Rightarrow> pyfloat option) \<Rightarrow> int \<Rightarrow> cell \<Rightarrow> error + cell" where
  "mem_to_gb to_float machine_mem NoneCell = Inl TypeError"
| "mem_to_gb to_float machine_mem (Str s) =
     (case to_float s of None \<Rightarrow> Inl ValueError | Some x \<Rightarrow> Inr (Flt (scale_mem machine_mem x)))"
| "mem_to_gb to_float machine_mem (Flt x) = Inr (Flt (scale_mem machine_mem x))"

definition apply_mem :: "(string \<Rightarrow> pyfloat option) \<Rightarrow> int \<Rightarrow> nat \<times> cell usage \<Rightarrow> error + nat \<times> cell usage" where
  "apply_mem to_float machine_mem r =
     (case mem_to_gb to_float machine_mem (mem (snd r)) of
        Inl e \<Rightarrow> Inl e
      | Inr m \<Rightarrow> Inr (fst r, (snd r)\<lparr>mem := m\<rparr>))"

text \<open>\<^verbatim>\<open>astype(float)\<close> on one cell: \<^verbatim>\<open>None\<close> becomes NaN, a string is converted.\<close>

fun astype_float :: "(string \<Rightarrow> pyfloat option) \<Rightarrow> cell \<Rightarrow> error + pyfloat" where
  "astype_float to_float NoneCell = Inr NaN"
| "astype_float to_float (Str s) = (case to_float s of None \<Rightarrow> Inl ValueError | Some x \<Rightarrow> Inr x)"
| "astype_float to_float (Flt x) = Inr x"

definition astype_row :: "(string \<Rightarrow> pyfloat option) \<Rightarrow> nat \<times> cell usage \<Rightarrow> error + nat \<times> pyfloat usage" where
  "astype_row to_float r =
     (case astype_float to_float (cpu (snd r)) of Inl e \<Rightarrow> Inl e | Inr c \<Rightarrow>
     (case astype_float to_float (mem (snd r)) of Inl e \<Rightarrow> Inl e | Inr m \<Rightarrow>
     (case astype_float to_float (kbs_read (snd r)) of Inl e \<Rightarrow> Inl e | Inr rd \<Rightarrow>
     (case astype_float to_float (kbs_written (snd r)) of Inl e \<Rightarrow> Inl e | Inr wr \<Rightarrow>
        Inr (fst r, \<lparr>cpu = c, mem = m, kbs_read = rd, kbs_written = wr\<rparr>)))))"

subsection \<open>Summation by the second for the database table (lines 194 to 207)\<close>

text \<open>The sum of a group as pandas computes it: missing values are skipped.\<close>

fun num_or_zero :: "pyfloat \<Rightarrow> real" where
  "num_or_zero NaN = 0"
| "num_or_zero (Num x) = x"

definition group_sum :: "pyfloat list \<Rightarrow> pyfloat" where
  "group_sum xs = Num (sum_list (map num_or_zero xs))"

text \<open>\<^verbatim>\<open>df.groupby(["Seconds Elapsed"])[col].transform(sum)\<close>: the new column.\<close>

definition transform_sum :: "(pyfloat usage \<Rightarrow> pyfloat) \<Rightarrow> pyfloat usage frame \<Rightarrow> pyfloat list" where
  "transform_sum col df =
     map (\<lambda>r. group_sum (map (col \<circ> snd) (filter (\<lambda>r'. fst r' = fst r) df))) df"

definition assign :: "(pyfloat \<Rightarrow> pyfloat usage \<Rightarrow> pyfloat usage) \<Rightarrow> pyfloat usage frame \<Rightarrow> pyfloat list \<Rightarrow> pyfloat usage frame" where
  "assign upd df vs = map (\<lambda>(r, v). (fst r, upd v (snd r))) (zip df vs)"

text \<open>\<^verbatim>\<open>drop_duplicates(subset=["Seconds Elapsed"])\<close> keeps the first row of each key.\<close>

fun drop_duplicates_from :: "nat list \<Rightarrow> 'a frame \<Rightarrow> 'a frame" where
  "drop_duplicates_from seen [] = []"
| "drop_duplicates_from seen (r # rs) =
     (if fst r \<in> set seen then drop_duplicates_from seen rs
      else r # drop_duplicates_from (fst r # seen) rs)"

definition drop_duplicates :: "'a frame \<Rightarrow> 'a frame" where
  "drop_duplicates df = drop_duplicates_from [] df"

definition sum_by_second :: "pyfloat usage frame \<Rightarrow> pyfloat usage frame" where
  "sum_by_second df =
     (let df = assign (\<lambda>v u. u\<lparr>cpu := v\<rparr>) df (transform_sum cpu df);
          df = assign (\<lambda>v u. u\<lparr>mem := v\<rparr>) df (transform_sum mem df);
          df = assign (\<lambda>v u. u\<lparr>kbs_written := v\<rparr>) df (transform_sum kbs_written df);
          df = assign (\<lambda>v u. u\<lparr>kbs_read := v\<rparr>) df (transform_sum kbs_read df)
      in drop_duplicates df)"

subsection \<open>Negative values (line 209)\<close>

text \<open>\<^verbatim>\<open>df[df < 0] = 0\<close>: the mask \<^verbatim>\<open>df < 0\<close> is false at NaN.\<close>

fun negative :: "pyfloat \<Rightarrow> bool" where
  "negative NaN = False"
| "negative (Num x) = (x < 0)"

definition clamp :: "pyfloat \<Rightarrow> pyfloat" where
  "clamp v = (if negative v then Num 0 else v)"

definition clamp_row :: "nat \<times> pyfloat usage \<Rightarrow> nat \<times> pyfloat usage" where
  "clamp_row r =
     (fst r, \<lparr>cpu = clamp (cpu (snd r)), mem = clamp (mem (snd r)),
              kbs_read = clamp (kbs_read (snd r)), kbs_written = clamp (kbs_written (snd r))\<rparr>)"

subsection \<open>make\_pidstat\_tables\<close>

text \<open>The frame after the cast of line 191, before the part that depends on the type.\<close>

definition raw_frame :: "(string \<Rightarrow> pyfloat option) \<Rightarrow> int \<Rightarrow> string list \<Rightarrow> string \<Rightarrow> error + pyfloat usage frame" where
  "raw_frame to_float machine_mem lines type =
     (case scan_lines type 0 lines of Inl e \<Rightarrow> Inl e | Inr total_usage \<Rightarrow>
     (case DataFrame total_usage of Inl e \<Rightarrow> Inl e | Inr df \<Rightarrow>
     (case map_err (apply_mem to_float machine_mem) df of Inl e \<Rightarrow> Inl e | Inr df' \<Rightarrow>
        map_err (astype_row to_float) df')))"

definition make_pidstat_tables :: "(string \<Rightarrow> pyfloat option) \<Rightarrow> int \<Rightarrow> string list option \<Rightarrow> string \<Rightarrow> error + pyfloat usage frame" where
  "make_pidstat_tables to_float machine_mem file type =
     (case file of
        None \<Rightarrow> Inl FileNotFoundError
      | Some lines \<Rightarrow>
          (case raw_frame to_float machine_mem lines type of
             Inl e \<Rightarrow> Inl e
           | Inr df \<Rightarrow> Inr (map clamp_row (if type = ''DB'' then sum_by_second df else df))))"

subsection \<open>graph\_pidstat: the merged table and the run summary\<close>

text \<open>
  \<^verbatim>\<open>pandas.merge(left, right, on="Seconds Elapsed")\<close>, an inner join: each row of
  the left frame with each row of the right frame that has the same key, in the order
  of the left frame.
\<close>

definition merge :: "'a frame \<Rightarrow> 'b frame \<Rightarrow> ('a \<times> 'b) frame" where
  "merge left right =
     concat (map (\<lambda>l. map (\<lambda>r. (fst l, (snd l, snd r))) (filter (\<lambda>r. fst r = fst l) right)) left)"

type_synonym stats = "(pyfloat usage \<times> pyfloat usage) \<times> pyfloat usage"

definition pipeline :: "stats \<Rightarrow> pyfloat usage" where
  "pipeline row = fst (fst row)"

definition server :: "stats \<Rightarrow> pyfloat usage" where
  "server row = snd (fst row)"

definition db :: "stats \<Rightarrow> pyfloat usage" where
  "db row = snd row"

text \<open>\<^verbatim>\<open>Series.mean()\<close> skips missing values and is NaN when nothing is left.\<close>

definition mean :: "pyfloat list \<Rightarrow> pyfloat" where
  "mean xs =
     (let ys = filter (\<lambda>x. x \<noteq> NaN) xs
      in if ys = [] then NaN else Num (sum_list (map num_or_zero ys) / real (length ys)))"

text \<open>Rounding to the nearest integer, a tie to the even one.\<close>

definition rint :: "real \<Rightarrow> int" where
  "rint x =
     (let f = \<lfloor>x\<rfloor>; d = x - of_int f
      in if d < 1 / 2 then f else if 1 / 2 < d then f + 1 else if even f then f else f + 1)"

text \<open>\<^verbatim>\<open>round(x, 1)\<close>.\<close>

fun round1 :: "pyfloat \<Rightarrow> pyfloat" where
  "round1 NaN = NaN"
| "round1 (Num x) = Num (of_int (rint (x * 10)) / 10)"

definition avg :: "(stats \<Rightarrow> pyfloat usage) \<Rightarrow> (pyfloat usage \<Rightarrow> pyfloat) \<Rightarrow> stats frame \<Rightarrow> pyfloat" where
  "avg role col all_stats_df = round1 (mean (map (col \<circ> role \<circ> snd) all_stats_df))"

text \<open>
  \<^verbatim>\<open>int(all_stats_df["Seconds Elapsed"].max())\<close>: the maximum of an empty column is
  NaN, and \<^verbatim>\<open>int\<close> of NaN raises ValueError.
\<close>

definition total_time :: "'a frame \<Rightarrow> error + nat" where
  "total_time all_stats_df =
     (if all_stats_df = [] then Inl ValueError else Inr (Max (set (map fst all_stats_df))))"

record summary =
  total_seconds :: nat
  avg_pipeline_cpu :: pyfloat
  avg_server_cpu :: pyfloat
  avg_db_cpu :: pyfloat
  avg_pipeline_mem :: pyfloat
  avg_server_mem :: pyfloat
  avg_db_mem :: pyfloat
  avg_pipeline_read :: pyfloat
  avg_server_read :: pyfloat
  avg_db_read :: pyfloat
  avg_pipeline_write :: pyfloat
  avg_server_write :: pyfloat
  avg_db_write :: pyfloat

text \<open>The numbers of the "Run Summary" texts (lines 348 to 452), in their order.\<close>

definition run_summary :: "stats frame \<Rightarrow> error + summary" where
  "run_summary all_stats_df =
     (case total_time all_stats_df of
        Inl e \<Rightarrow> Inl e
      | Inr t \<Rightarrow>
          Inr \<lparr>total_seconds = t,
               avg_pipeline_cpu = avg pipeline cpu all_stats_df,
               avg_server_cpu = avg server cpu all_stats_df,
               avg_db_cpu = avg db cpu all_stats_df,
               avg_pipeline_mem = avg pipeline mem all_stats_df,
               avg_server_mem = avg server mem all_stats_df,
               avg_db_mem = avg db mem all_stats_df,
               avg_pipeline_read = avg pipeline kbs_read all_stats_df,
               avg_server_read = avg server kbs_read all_stats_df,
               avg_db_read = avg db kbs_read all_stats_df,
               avg_pipeline_write = avg pipeline kbs_written all_stats_df,
               avg_server_write = avg server kbs_written all_stats_df,
               avg_db_write = avg db kbs_written all_stats_df\<rparr>)"

definition merge_stats :: "pyfloat usage frame \<Rightarrow> pyfloat usage frame \<Rightarrow> pyfloat usage frame \<Rightarrow> stats frame" where
  "merge_stats pipeline_df server_df db_df = merge (merge pipeline_df server_df) db_df"

text \<open>
  The three raw files are arguments. The result is the merged table, which the code
  writes as CSV, and the summary; an error leaves nothing written, since the files are
  saved last.
\<close>

definition graph_pidstat ::
  "(string \<Rightarrow> pyfloat option) \<Rightarrow> int \<Rightarrow> string list option \<Rightarrow> string list option \<Rightarrow> string list option
     \<Rightarrow> error + stats frame \<times> summary" where
  "graph_pidstat to_float machine_mem pipeline_file server_file database_file =
     (case make_pidstat_tables to_float machine_mem pipeline_file ''Pipeline'' of Inl e \<Rightarrow> Inl e | Inr pipeline_df \<Rightarrow>
     (case make_pidstat_tables to_float machine_mem server_file ''Server'' of Inl e \<Rightarrow> Inl e | Inr server_df \<Rightarrow>
     (case make_pidstat_tables to_float machine_mem database_file ''DB'' of Inl e \<Rightarrow> Inl e | Inr db_df \<Rightarrow>
     (let all_stats_df = merge_stats pipeline_df server_df db_df
      in case run_summary all_stats_df of Inl e \<Rightarrow> Inl e | Inr s \<Rightarrow> Inr (all_stats_df, s)))))"

subsection \<open>Notions used to state the properties\<close>

text \<open>A data line that the loop does not skip: for the database table a line with an
  identity token other than \<^verbatim>\<open>hapi\<close> is skipped.\<close>

definition kept :: "string \<Rightarrow> string \<Rightarrow> bool" where
  "kept type line =
     (case line of
        [] \<Rightarrow> False
      | c # _ \<Rightarrow> isdigit c \<and>
          \<not> (type = ''DB'' \<and> 3 \<le> length (split line) \<and> split line ! (length (split line) - 3) \<noteq> ''hapi''))"

text \<open>Every line of the file with the number of header lines before it: its second.\<close>

fun tagged :: "nat \<Rightarrow> string list \<Rightarrow> (nat \<times> string) list" where
  "tagged s [] = []"
| "tagged s (l # ls) = (s, l) # tagged (if take 1 l = ''#'' then s + 1 else s) ls"

text \<open>
  The four values the code reads from one data line: the cells of its window, the
  \<^verbatim>\<open>%MEM\<close> cell scaled to GB, each converted to a float.
\<close>

definition reads :: "(string \<Rightarrow> pyfloat option) \<Rightarrow> int \<Rightarrow> string \<Rightarrow> pyfloat usage \<Rightarrow> bool" where
  "reads to_float machine_mem line u =
     (let w = pad_row (window (split line))
      in astype_float to_float (cpu w) = Inr (cpu u) \<and>
         (case mem_to_gb to_float machine_mem (mem w) of
            Inl e \<Rightarrow> False
          | Inr m \<Rightarrow> astype_float to_float m = Inr (mem u)) \<and>
         astype_float to_float (kbs_read w) = Inr (kbs_read u) \<and>
         astype_float to_float (kbs_written w) = Inr (kbs_written u))"

text \<open>
  The frame of the observations of a file: in the order of the file, one row for each
  data line that is kept, with the second of the line and the values read from it.
\<close>

definition observed :: "(string \<Rightarrow> pyfloat option) \<Rightarrow> int \<Rightarrow> string \<Rightarrow> string list \<Rightarrow> pyfloat usage frame \<Rightarrow> bool" where
  "observed to_float machine_mem type lines df =
     list_all2 (\<lambda>(s, l) r. fst r = s \<and> reads to_float machine_mem l (snd r))
       (filter (\<lambda>(s, l). kept type l) (tagged 0 lines)) df"

text \<open>The observations of one second.\<close>

definition group :: "nat \<Rightarrow> 'a frame \<Rightarrow> 'a list" where
  "group s df = map snd (filter (\<lambda>r. fst r = s) df)"

definition total :: "('a \<Rightarrow> pyfloat) \<Rightarrow> 'a list \<Rightarrow> real" where
  "total col us = sum_list (map (num_or_zero \<circ> col) us)"

text \<open>The row that holds the totals of one second.\<close>

definition sums_of :: "pyfloat usage frame \<Rightarrow> nat \<Rightarrow> pyfloat usage" where
  "sums_of df s =
     \<lparr>cpu = Num (total cpu (group s df)), mem = Num (total mem (group s df)),
      kbs_read = Num (total kbs_read (group s df)),
      kbs_written = Num (total kbs_written (group s df))\<rparr>"

definition column :: "(stats \<Rightarrow> pyfloat usage) \<Rightarrow> (pyfloat usage \<Rightarrow> pyfloat) \<Rightarrow> stats frame \<Rightarrow> pyfloat list" where
  "column role col df = map (col \<circ> role \<circ> snd) df"

definition arithmetic_mean :: "real list \<Rightarrow> real" where
  "arithmetic_mean xs = sum_list xs / real (length xs)"

text \<open>The values of a column that are present.\<close>

fun present :: "pyfloat list \<Rightarrow> real list" where
  "present [] = []"
| "present (NaN # vs) = present vs"
| "present (Num x # vs) = x # present vs"

text \<open>\<open>v\<close> is \<open>m\<close> rounded to one decimal place: a multiple of a tenth, at most
  half a tenth away, and the even multiple where two are equally near.\<close>

definition one_decimal :: "real \<Rightarrow> real \<Rightarrow> bool" where
  "one_decimal m v =
     (\<exists>k::int. v = of_int k / 10 \<and> \<bar>v - m\<bar> \<le> 1 / 20 \<and> (\<bar>v - m\<bar> = 1 / 20 \<longrightarrow> even k))"

text \<open>\<open>x\<close> is the arithmetic mean of the values of a column that are present, rounded
  to one decimal place; NaN when the column has no value.\<close>

definition rounded_mean :: "pyfloat list \<Rightarrow> pyfloat \<Rightarrow> bool" where
  "rounded_mean vs x =
     (if present vs = [] then x = NaN
      else \<exists>v. x = Num v \<and> one_decimal (arithmetic_mean (present vs)) v)"

text \<open>The twelve averages of the summary, each with its role and its column.\<close>

definition averages :: "((summary \<Rightarrow> pyfloat) \<times> (stats \<Rightarrow> pyfloat usage) \<times> (pyfloat usage \<Rightarrow> pyfloat)) list" where
  "averages =
     [(avg_pipeline_cpu, pipeline, cpu), (avg_server_cpu, server, cpu), (avg_db_cpu, db, cpu),
      (avg_pipeline_mem, pipeline, mem), (avg_server_mem, server, mem), (avg_db_mem, db, mem),
      (avg_pipeline_read, pipeline, kbs_read), (avg_server_read, server, kbs_read),
      (avg_db_read, db, kbs_read),
      (avg_pipeline_write, pipeline, kbs_written), (avg_server_write, server, kbs_written),
      (avg_db_write, db, kbs_written)]"

subsection \<open>Sample input\<close>

text \<open>
  The plain decimal literals among the strings \<^verbatim>\<open>float\<close> accepts (a sign, digits, a
  point), which is all the samples below contain.
\<close>

definition nat_of_digits :: "string \<Rightarrow> nat" where
  "nat_of_digits ds = foldl (\<lambda>n c. 10 * n + (of_char c - 48)) 0 ds"

definition decimal :: "string \<Rightarrow> real option" where
  "decimal s =
     (let ip = takeWhile isdigit s; rest = dropWhile isdigit s
      in if rest = [] then (if ip = [] then None else Some (real (nat_of_digits ip)))
         else if hd rest = CHR ''.'' \<and> list_all isdigit (tl rest) \<and> \<not> (ip = [] \<and> tl rest = [])
           then Some (real (nat_of_digits ip) + real (nat_of_digits (tl rest)) / 10 ^ length (tl rest))
         else None)"

definition py_float :: "string \<Rightarrow> pyfloat option" where
  "py_float s =
     (case s of
        [] \<Rightarrow> None
      | c # r \<Rightarrow>
          if c = CHR ''-'' then map_option (\<lambda>x. Num (- x)) (decimal r)
          else if c = CHR ''+'' then map_option Num (decimal r)
          else map_option Num (decimal s))"

text \<open>
  A line of \<^verbatim>\<open>pidstat -h\<close> output with the given \<^verbatim>\<open>%CPU\<close>, \<^verbatim>\<open>%MEM\<close>,
  \<^verbatim>\<open>kB_rd/s\<close>, \<^verbatim>\<open>kB_wr/s\<close> and command, and the header line that starts a
  second.
\<close>

definition sample :: "string \<Rightarrow> string \<Rightarrow> string \<Rightarrow> string \<Rightarrow> string \<Rightarrow> string" where
  "sample c m rd wr command =
     ''12:00:01 AM 1000 4242 0.00 0.00 0.00 0.00 '' @ c @ '' 3 100.00 0.00 500000 20000 '' @
     m @ '' '' @ rd @ '' '' @ wr @ '' 0.00 0 '' @ command"

definition header :: string where
  "header = ''# Time UID PID %usr %system %guest %wait %CPU CPU minflt/s majflt/s VSZ RSS %MEM kB_rd/s kB_wr/s kB_ccwr/s iodelay Command''"

definition hapi :: string where
  "hapi = ''postgres: admin hapi 172.18.0.1(44312) idle''"

definition pipeline_stats :: "string list" where
  "pipeline_stats =
     [sample ''10.00'' ''2.50'' ''0.00'' ''0.00'' ''java'', header,
      sample ''20.00'' ''2.50'' ''0.00'' ''0.00'' ''java'', header]"

definition server_stats :: "string list" where
  "server_stats =
     [sample ''5.00'' ''5.00'' ''0.00'' ''4.00'' ''java'', header,
      sample ''15.00'' ''5.00'' ''0.00'' ''4.00'' ''java'', header]"

definition database_stats :: "string list" where
  "database_stats =
     [sample ''1.00'' ''1.00'' ''0.00'' ''0.00'' hapi,
      sample ''2.00'' ''1.00'' ''0.00'' ''0.00'' hapi, header,
      sample ''3.00'' ''1.00'' ''0.00'' ''0.00'' hapi, header]"

text \<open>Two data lines within one second.\<close>

definition twice_file :: "string list" where
  "twice_file =
     [sample ''10.00'' ''2.50'' ''0.00'' ''0.00'' ''java'',
      sample ''20.00'' ''2.50'' ''0.00'' ''0.00'' ''java'']"

definition once_file :: "string list" where
  "once_file = [sample ''1.00'' ''1.00'' ''0.00'' ''0.00'' hapi]"

text \<open>Data in the third second only.\<close>

definition late_file :: "string list" where
  "late_file = [header, header, sample ''5.00'' ''5.00'' ''0.00'' ''4.00'' ''java'']"

text \<open>A second line that stops after \<^verbatim>\<open>kB_rd/s\<close> (16 tokens), and one that stops
  after \<^verbatim>\<open>minflt/s\<close> (11 tokens).\<close>

definition short_file :: "string list" where
  "short_file =
     [sample ''10.00'' ''2.50'' ''0.00'' ''0.00'' ''java'',
      ''12:00:01 AM 1000 4242 0.00 0.00 0.00 0.00 20.00 3 100.00 0.00 500000 20000 2.50 7.00'']"

definition cut_file :: "string list" where
  "cut_file =
     [sample ''10.00'' ''2.50'' ''0.00'' ''0.00'' ''java'',
      ''12:00:01 AM 1000 4242 0.00 0.00 0.00 0.00 20.00 3 100.00'']"

text \<open>A negative read rate, alone and beside a smaller positive one.\<close>

definition negative_file :: "string list" where
  "negative_file = [sample ''10.00'' ''2.50'' ''-5.00'' ''0.00'' ''java'']"

definition deficit_file :: "string list" where
  "deficit_file =
     [sample ''1.00'' ''1.00'' ''-5.00'' ''0.00'' hapi,
      sample ''2.00'' ''1.00'' ''2.00'' ''0.00'' hapi]"

text \<open>A process of another database among those of \<^verbatim>\<open>hapi\<close>.\<close>

definition other :: string where
  "other = sample ''50.00'' ''9.00'' ''6.00'' ''6.00'' ''postgres: admin keycloak 172.18.0.1(44312) idle''"

definition mixed_file :: "string list" where
  "mixed_file = [sample ''1.00'' ''1.00'' ''0.00'' ''0.00'' hapi, other, header]"

text \<open>A merged table of two rows, the later second first: means that lie half way
  between two tenths, and a value that is missing.\<close>

definition busy :: "pyfloat \<Rightarrow> pyfloat usage" where
  "busy c = \<lparr>cpu = c, mem = Num 0, kbs_read = NaN, kbs_written = Num 0\<rparr>"

definition merged_rows :: "stats frame" where
  "merged_rows =
     [(1, ((busy (Num (1 / 2)), busy (Num 1)), busy (Num 3))),
      (0, ((busy (Num 0), busy (Num (1 / 2))), busy NaN))]"

section \<open>Properties\<close>

subsection \<open>The end-to-end scenario\<close>

text \<open>
  Claim C2. A pipeline file with two header lines and two data lines, in the seconds 0
  and 1, with \<^verbatim>\<open>%CPU\<close> 10 and 20; a server file with the same two seconds and
  \<^verbatim>\<open>%CPU\<close> 5 and 15; a database file with two \<^verbatim>\<open>hapi\<close> processes in second 0
  (\<^verbatim>\<open>%CPU\<close> 1 and 2) and one in second 1 (\<^verbatim>\<open>%CPU\<close> 3). The merged table has
  exactly two rows, the row of second 0 has the database \<^verbatim>\<open>%CPU\<close> 3, and the average
  pipeline \<^verbatim>\<open>%CPU\<close> of the summary is 15.0.
\<close>

theorem end_to_end:
  "\<exists>all_stats_df s.
     graph_pidstat py_float 16 (Some pipeline_stats) (Some server_stats) (Some database_stats)
       = Inr (all_stats_df, s) \<and>
     length all_stats_df = 2 \<and>
     map fst all_stats_df = [0, 1] \<and>
     cpu (db (snd (all_stats_df ! 0))) = Num 3 \<and>
     avg_pipeline_cpu s = Num 15"
proof -
  have "case graph_pidstat py_float 16 (Some pipeline_stats) (Some server_stats) (Some database_stats) of
          Inl e \<Rightarrow> False
        | Inr (all_stats_df, s) \<Rightarrow>
            length all_stats_df = 2 \<and> map fst all_stats_df = [0, 1] \<and>
            cpu (db (snd (all_stats_df ! 0))) = Num 3 \<and> avg_pipeline_cpu s = Num 15"
    by code_simp
  then show ?thesis
    by (simp split: sum.splits prod.splits)
qed

subsection \<open>The filter of the database table\<close>

lemma scan_lines_skip:
  assumes "kept ''DB'' line = False" "line \<noteq> []" "isdigit (hd line)" "3 \<le> length (split line)"
  shows "scan_lines ''DB'' s (before @ line # after) = scan_lines ''DB'' s (before @ after)"
  using assms
proof (induction before arbitrary: s)
  case Nil
  then show ?case by (cases line) (auto simp: kept_def Let_def)
next
  case (Cons l ls)
  then show ?case by (cases l) (auto simp: Let_def split: sum.splits)
qed

text \<open>
  Claim C8. For the database table, a data line whose identity token (the third token
  from the end) is not \<^verbatim>\<open>hapi\<close> is discarded: the table of a file is the table of
  the file without that line, so the line changes no row and no value, whatever stands
  before and after it.
\<close>

theorem other_process_discarded:
  assumes "line \<noteq> []" and "isdigit (hd line)"
    and "3 \<le> length (split line)"
    and "split line ! (length (split line) - 3) \<noteq> ''hapi''"
  shows "make_pidstat_tables to_float machine_mem (Some (before @ line # after)) ''DB''
       = make_pidstat_tables to_float machine_mem (Some (before @ after)) ''DB''"
proof -
  have "kept ''DB'' line = False"
    using assms by (cases line) (auto simp: kept_def)
  then have "scan_lines ''DB'' 0 (before @ line # after) = scan_lines ''DB'' 0 (before @ after)"
    using assms scan_lines_skip by blast
  then show ?thesis
    by (simp add: make_pidstat_tables_def raw_frame_def)
qed

theorem other_process_discarded_witness:
  "make_pidstat_tables py_float 16 (Some mixed_file) ''DB''
     = make_pidstat_tables py_float 16 (Some [sample ''1.00'' ''1.00'' ''0.00'' ''0.00'' hapi, header]) ''DB''
   \<and> make_pidstat_tables py_float 16 (Some mixed_file) ''DB''
     = Inr [(0, \<lparr>cpu = Num 1, mem = Num (4 / 25), kbs_read = Num 0, kbs_written = Num 0\<rparr>)]"
proof -
  have 1: "other \<noteq> []" by code_simp
  have 2: "isdigit (hd other)" by code_simp
  have 3: "3 \<le> length (split other)" by code_simp
  have 4: "split other ! (length (split other) - 3) \<noteq> ''hapi''" by code_simp
  have 5: "make_pidstat_tables py_float 16 (Some mixed_file) ''DB''
     = Inr [(0, \<lparr>cpu = Num 1, mem = Num (4 / 25), kbs_read = Num 0, kbs_written = Num 0\<rparr>)]"
    by code_simp
  from other_process_discarded [OF 1 2 3 4, of py_float 16 "[sample ''1.00'' ''1.00'' ''0.00'' ''0.00'' hapi]" "[header]"] 5
  show ?thesis by (simp add: mixed_file_def)
qed

subsection \<open>The rows of the frame\<close>

lemma scan_lines_rows:
  assumes "scan_lines type s lines = Inr rows"
  shows "sorted (map fst rows) \<and> (\<forall>r \<in> set rows. s \<le> fst r) \<and>
         length rows = length (filter (kept type) lines)"
  using assms
proof (induction lines arbitrary: s rows)
  case Nil
  then show ?case by simp
next
  case (Cons l ls)
  show ?case
  proof (cases l)
    case Nil
    with Cons.prems show ?thesis by simp
  next
    case (Cons c cs)
    consider (skip) "isdigit c" "type = ''DB''" "3 \<le> length (split l)"
          "split l ! (length (split l) - 3) \<noteq> ''hapi''"
      | (row) "isdigit c" "\<not> (type = ''DB'' \<and> split l ! (length (split l) - 3) \<noteq> ''hapi'')"
          "\<not> (type = ''DB'' \<and> length (split l) < 3)"
      | (fail) "isdigit c" "type = ''DB''" "length (split l) < 3"
      | (mark) "\<not> isdigit c" "c = CHR ''#''"
      | (other) "\<not> isdigit c" "c \<noteq> CHR ''#''"
      by fastforce
    then show ?thesis
    proof cases
      case skip
      with Cons.prems Cons have "scan_lines type s ls = Inr rows"
        by (simp add: Let_def)
      from Cons.IH [OF this] skip Cons show ?thesis
        by (simp add: kept_def)
    next
      case row
      with Cons.prems Cons obtain rest where rest: "scan_lines type s ls = Inr rest"
        and rows: "rows = (s, window (split l)) # rest"
        by (auto simp: Let_def split: sum.splits if_splits)
      from Cons.IH [OF rest] rows row Cons show ?thesis
        by (auto simp: kept_def)
    next
      case fail
      with Cons.prems Cons show ?thesis by (simp add: Let_def)
    next
      case mark
      with Cons.prems Cons have "scan_lines type (s + 1) ls = Inr rows"
        by simp
      from Cons.IH [OF this] mark Cons show ?thesis
        by (auto simp: kept_def)
    next
      case other
      with Cons.prems Cons have "scan_lines type s ls = Inr rows"
        by simp
      from Cons.IH [OF this] other Cons show ?thesis
        by (simp add: kept_def)
    qed
  qed
qed

lemma scan_lines_tagged:
  assumes "scan_lines type s lines = Inr rows"
  shows "rows = map (\<lambda>(s, l). (s, window (split l))) (filter (\<lambda>(s, l). kept type l) (tagged s lines))"
  using assms
proof (induction lines arbitrary: s rows)
  case Nil
  then show ?case by simp
next
  case (Cons l ls)
  show ?case
  proof (cases l)
    case Nil
    with Cons.prems show ?thesis by simp
  next
    case (Cons c cs)
    consider (skip) "isdigit c" "type = ''DB''" "3 \<le> length (split l)"
          "split l ! (length (split l) - 3) \<noteq> ''hapi''"
      | (row) "isdigit c" "\<not> (type = ''DB'' \<and> split l ! (length (split l) - 3) \<noteq> ''hapi'')"
          "\<not> (type = ''DB'' \<and> length (split l) < 3)"
      | (fail) "isdigit c" "type = ''DB''" "length (split l) < 3"
      | (mark) "\<not> isdigit c" "c = CHR ''#''"
      | (other) "\<not> isdigit c" "c \<noteq> CHR ''#''"
      by fastforce
    then show ?thesis
    proof cases
      case skip
      then have c: "c \<noteq> CHR ''#''" by (auto simp: isdigit_def)
      from skip Cons.prems Cons have "scan_lines type s ls = Inr rows"
        by (simp add: Let_def)
      from Cons.IH [OF this] skip Cons c show ?thesis
        by (simp add: kept_def)
    next
      case row
      then have c: "c \<noteq> CHR ''#''" by (auto simp: isdigit_def)
      from row Cons.prems Cons obtain rest where rest: "scan_lines type s ls = Inr rest"
        and rows: "rows = (s, window (split l)) # rest"
        by (auto simp: Let_def split: sum.splits if_splits)
      from Cons.IH [OF rest] rows row Cons c show ?thesis
        by (auto simp: kept_def)
    next
      case fail
      with Cons.prems Cons show ?thesis by (simp add: Let_def)
    next
      case mark
      with Cons.prems Cons have "scan_lines type (s + 1) ls = Inr rows"
        by simp
      from Cons.IH [OF this] mark Cons show ?thesis
        by (auto simp: kept_def)
    next
      case other
      with Cons.prems Cons have "scan_lines type s ls = Inr rows"
        by simp
      from Cons.IH [OF this] other Cons show ?thesis
        by (simp add: kept_def)
    qed
  qed
qed

lemma DataFrame_keys: "DataFrame rows = Inr df \<Longrightarrow> map fst df = map fst rows"
  by (auto simp: DataFrame_def split: if_splits)

lemma map_err_Inr:
  "map_err f xs = Inr ys \<Longrightarrow> list_all2 (\<lambda>x y. f x = Inr y) xs ys"
  by (induction xs arbitrary: ys) (auto split: sum.splits)

lemma apply_mem_key: "apply_mem to_float machine_mem r = Inr r' \<Longrightarrow> fst r' = fst r"
  by (auto simp: apply_mem_def split: sum.splits)

lemma astype_row_key: "astype_row to_float r = Inr r' \<Longrightarrow> fst r' = fst r"
  by (auto simp: astype_row_def split: sum.splits)

lemma list_all2_keys:
  "list_all2 (\<lambda>x y. f x = Inr y) xs ys \<Longrightarrow> (\<And>x y. f x = Inr y \<Longrightarrow> fst y = fst x)
     \<Longrightarrow> map fst ys = map fst xs"
  by (induction xs ys rule: list_all2_induct) auto

lemma raw_frame_keys:
  assumes "raw_frame to_float machine_mem lines type = Inr df"
  obtains rows where "scan_lines type 0 lines = Inr rows" and "map fst df = map fst rows"
proof -
  from assms obtain rows df1 df2 where rows: "scan_lines type 0 lines = Inr rows"
    and df1: "DataFrame rows = Inr df1"
    and df2: "map_err (apply_mem to_float machine_mem) df1 = Inr df2"
    and df: "map_err (astype_row to_float) df2 = Inr df"
    by (auto simp: raw_frame_def split: sum.splits)
  have "map fst df2 = map fst df1"
    using map_err_Inr [OF df2] by (rule list_all2_keys) (rule apply_mem_key)
  moreover have "map fst df = map fst df2"
    using map_err_Inr [OF df] by (rule list_all2_keys) (rule astype_row_key)
  ultimately have "map fst df = map fst rows"
    using DataFrame_keys [OF df1] by simp
  with rows that show ?thesis by blast
qed

lemma raw_frame_sorted:
  assumes "raw_frame to_float machine_mem lines type = Inr df"
  shows "sorted (map fst df)"
proof -
  from assms obtain rows where rows: "scan_lines type 0 lines = Inr rows"
    and keys: "map fst df = map fst rows"
    by (rule raw_frame_keys)
  from scan_lines_rows [OF rows] keys show ?thesis by simp
qed

lemma DataFrame_rows: "DataFrame rows = Inr df \<Longrightarrow> df = map (\<lambda>(s, u). (s, pad_row u)) rows"
  by (auto simp: DataFrame_def split: if_splits)

lemma apply_mem_astype_row:
  assumes "apply_mem to_float machine_mem (s, w) = Inr r1" and "astype_row to_float r1 = Inr r"
  shows "fst r = s \<and>
         astype_float to_float (cpu w) = Inr (cpu (snd r)) \<and>
         (case mem_to_gb to_float machine_mem (mem w) of
            Inl e \<Rightarrow> False
          | Inr m \<Rightarrow> astype_float to_float m = Inr (mem (snd r))) \<and>
         astype_float to_float (kbs_read w) = Inr (kbs_read (snd r)) \<and>
         astype_float to_float (kbs_written w) = Inr (kbs_written (snd r))"
  using assms by (auto simp: apply_mem_def astype_row_def split: sum.splits)

lemma raw_frame_observed:
  assumes "raw_frame to_float machine_mem lines type = Inr df"
  shows "observed to_float machine_mem type lines df"
proof -
  from assms obtain rows df1 df2 where rows: "scan_lines type 0 lines = Inr rows"
    and df1: "DataFrame rows = Inr df1"
    and df2: "map_err (apply_mem to_float machine_mem) df1 = Inr df2"
    and df: "map_err (astype_row to_float) df2 = Inr df"
    by (auto simp: raw_frame_def split: sum.splits)
  let ?kept = "filter (\<lambda>(s, l). kept type l) (tagged 0 lines)"
  have df1': "df1 = map (\<lambda>(s, l). (s, pad_row (window (split l)))) ?kept"
    using DataFrame_rows [OF df1] scan_lines_tagged [OF rows] by (simp add: case_prod_unfold comp_def)
  have "list_all2 (\<lambda>x r. \<exists>r1. apply_mem to_float machine_mem x = Inr r1 \<and> astype_row to_float r1 = Inr r) df1 df"
    using map_err_Inr [OF df2] map_err_Inr [OF df]
    unfolding list_all2_conv_all_nth by metis
  then have "list_all2 (\<lambda>(s, l) r. \<exists>r1. apply_mem to_float machine_mem (s, pad_row (window (split l))) = Inr r1
                 \<and> astype_row to_float r1 = Inr r) ?kept df"
    unfolding df1' by (simp add: list_all2_map1 case_prod_unfold)
  then have "list_all2 (\<lambda>(s, l) r. fst r = s \<and> reads to_float machine_mem l (snd r)) ?kept df"
    by (rule list_all2_mono) (auto simp: reads_def Let_def dest!: apply_mem_astype_row)
  then show ?thesis by (simp add: observed_def)
qed

lemma make_pidstat_tables_Inr:
  assumes "make_pidstat_tables to_float machine_mem (Some lines) type = Inr t"
  obtains df where "raw_frame to_float machine_mem lines type = Inr df"
    and "t = map clamp_row (if type = ''DB'' then sum_by_second df else df)"
  using assms by (auto simp: make_pidstat_tables_def split: sum.splits)

subsection \<open>Summation by the second\<close>

lemma zip_map_same: "zip xs (map f xs) = map (\<lambda>x. (x, f x)) xs"
  by (induction xs) auto

lemma assign_transform_sum:
  "assign upd df (transform_sum col df)
     = map (\<lambda>r. (fst r, upd (Num (total col (group (fst r) df))) (snd r))) df"
  by (simp add: assign_def transform_sum_def zip_map_same group_def total_def group_sum_def comp_def)

lemma group_map_keep:
  "group s (map (\<lambda>r. (fst r, h r)) df) = map h (filter (\<lambda>r. fst r = s) df)"
  by (induction df) (auto simp: group_def)

lemma total_group_upd:
  assumes "\<And>r. col (h r) = col (snd r)"
  shows "total col (group s (map (\<lambda>r. (fst r, h r)) df)) = total col (group s df)"
  using assms by (induction df) (auto simp: total_def group_def)

lemma usage_all_updated:
  "(u :: pyfloat usage)\<lparr>cpu := a, mem := b, kbs_written := c, kbs_read := d\<rparr>
     = \<lparr>cpu = a, mem = b, kbs_read = d, kbs_written = c\<rparr>"
  by (cases u) simp

lemma sum_by_second_eq:
  "sum_by_second df = drop_duplicates (map (\<lambda>r. (fst r, sums_of df (fst r))) df)"
  unfolding sum_by_second_def Let_def assign_transform_sum
  by (simp add: total_group_upd sums_of_def comp_def usage_all_updated)

lemma drop_duplicates_from_subset: "set (drop_duplicates_from seen df) \<subseteq> set df"
  by (induction df arbitrary: seen) auto

lemma drop_duplicates_from_keys:
  "fst ` set (drop_duplicates_from seen df) = fst ` set df - set seen"
  by (induction df arbitrary: seen) auto

lemma drop_duplicates_from_distinct: "distinct (map fst (drop_duplicates_from seen df))"
  by (induction df arbitrary: seen) (auto simp: drop_duplicates_from_keys)

lemma drop_duplicates_from_sorted:
  "sorted (map fst df) \<Longrightarrow> sorted (map fst (drop_duplicates_from seen df))"
proof (induction df arbitrary: seen)
  case Nil
  then show ?case by simp
next
  case (Cons r rs)
  have "set (drop_duplicates_from (fst r # seen) rs) \<subseteq> set rs"
    by (rule drop_duplicates_from_subset)
  with Cons show ?case by auto
qed

lemma sum_by_second_row:
  assumes "r \<in> set (sum_by_second df)"
  shows "snd r = sums_of df (fst r)"
proof -
  let ?df = "map (\<lambda>r. (fst r, sums_of df (fst r))) df"
  from assms have "r \<in> set ?df"
    using drop_duplicates_from_subset [of "[]" ?df]
    by (auto simp: sum_by_second_eq drop_duplicates_def)
  then show ?thesis by auto
qed

lemma sum_by_second_keys: "set (map fst (sum_by_second df)) = set (map fst df)"
  using drop_duplicates_from_keys [of "[]" "map (\<lambda>r. (fst r, sums_of df (fst r))) df"]
  by (simp add: sum_by_second_eq drop_duplicates_def image_image)

lemma sum_by_second_distinct: "distinct (map fst (sum_by_second df))"
  by (simp add: sum_by_second_eq drop_duplicates_def drop_duplicates_from_distinct)

lemma sum_by_second_sorted: "sorted (map fst df) \<Longrightarrow> sorted (map fst (sum_by_second df))"
  by (simp add: sum_by_second_eq drop_duplicates_def drop_duplicates_from_sorted comp_def)

lemma rows_by_key:
  assumes "\<forall>r \<in> set xs. snd r = g (fst r)"
  shows "xs = map (\<lambda>s. (s, g s)) (map fst xs)"
  using assms by (induction xs) auto

lemma sum_by_second_sorted_eq:
  assumes "sorted (map fst df)"
  shows "sum_by_second df = map (\<lambda>s. (s, sums_of df s)) (sorted_list_of_set (fst ` set df))"
proof -
  have "sorted (map fst (sum_by_second df))" and "distinct (map fst (sum_by_second df))"
    using assms by (simp_all add: sum_by_second_sorted sum_by_second_distinct)
  then have "sorted_list_of_set (set (map fst (sum_by_second df))) = map fst (sum_by_second df)"
    by (rule sorted_list_of_set.idem_if_sorted_distinct)
  then have "map fst (sum_by_second df) = sorted_list_of_set (fst ` set df)"
    using sum_by_second_keys [of df] by simp
  moreover have "sum_by_second df = map (\<lambda>s. (s, sums_of df s)) (map fst (sum_by_second df))"
    by (rule rows_by_key) (simp add: sum_by_second_row)
  ultimately show ?thesis by simp
qed

lemma clamp_Num: "clamp (Num x) = Num (max 0 x)"
  by (simp add: clamp_def max_def)

lemma database_table:
  assumes "make_pidstat_tables to_float machine_mem (Some lines) ''DB'' = Inr t"
  obtains df where "raw_frame to_float machine_mem lines ''DB'' = Inr df"
    and "observed to_float machine_mem ''DB'' lines df"
    and "t = map (\<lambda>s. (s, \<lparr>cpu = Num (max 0 (total cpu (group s df))),
                            mem = Num (max 0 (total mem (group s df))),
                            kbs_read = Num (max 0 (total kbs_read (group s df))),
                            kbs_written = Num (max 0 (total kbs_written (group s df)))\<rparr>))
              (sorted_list_of_set (fst ` set df))"
proof -
  from assms obtain df where df: "raw_frame to_float machine_mem lines ''DB'' = Inr df"
    and t: "t = map clamp_row (sum_by_second df)"
    by (auto elim: make_pidstat_tables_Inr)
  have "sum_by_second df = map (\<lambda>s. (s, sums_of df s)) (sorted_list_of_set (fst ` set df))"
    using raw_frame_sorted [OF df] by (rule sum_by_second_sorted_eq)
  with t have "t = map (\<lambda>s. (s, \<lparr>cpu = Num (max 0 (total cpu (group s df))),
                            mem = Num (max 0 (total mem (group s df))),
                            kbs_read = Num (max 0 (total kbs_read (group s df))),
                            kbs_written = Num (max 0 (total kbs_written (group s df)))\<rparr>))
              (sorted_list_of_set (fst ` set df))"
    by (simp add: clamp_row_def sums_of_def clamp_Num comp_def)
  with df raw_frame_observed [OF df] that show ?thesis by blast
qed

text \<open>
  Claim C1, as the specification states it: the row of a second in the database table
  carries the sum of each column over the \<^verbatim>\<open>hapi\<close> lines of that second. The
  negative values are replaced after the summation (line 209): two \<^verbatim>\<open>hapi\<close> lines
  of one second with the read rates \<^verbatim>\<open>-5.00\<close> and \<^verbatim>\<open>2.00\<close> sum to -3, and the
  table holds 0.
\<close>

theorem database_rows_counterexample:
  "\<exists>t df.
     make_pidstat_tables py_float 16 (Some deficit_file) ''DB'' = Inr t \<and>
     raw_frame py_float 16 deficit_file ''DB'' = Inr df \<and>
     map fst df = [0, 0] \<and>
     map (kbs_read \<circ> snd) df = [Num (- 5), Num 2] \<and>
     total kbs_read (group 0 df) = - 3 \<and>
     map fst t = [0] \<and>
     map (kbs_read \<circ> snd) t = [Num 0]"
proof -
  have "case make_pidstat_tables py_float 16 (Some deficit_file) ''DB'' of Inl e \<Rightarrow> False | Inr t \<Rightarrow>
        (case raw_frame py_float 16 deficit_file ''DB'' of Inl e \<Rightarrow> False | Inr df \<Rightarrow>
           map fst df = [0, 0] \<and> map (kbs_read \<circ> snd) df = [Num (- 5), Num 2] \<and>
           total kbs_read (group 0 df) = - 3 \<and> map fst t = [0] \<and>
           map (kbs_read \<circ> snd) t = [Num 0])"
    by code_simp
  then show ?thesis by (auto split: sum.splits)
qed

text \<open>
  Claim C1, amended. For the database table, the table that \<^verbatim>\<open>make_pidstat_tables\<close>
  returns has exactly one row for each second in which the file has a \<^verbatim>\<open>hapi\<close> data
  line, and each of its four values is the sum of that column over all \<^verbatim>\<open>hapi\<close>
  lines of the second where that sum is not negative, and 0 where it is: not the value
  of one line and not an average.
\<close>

theorem database_rows:
  assumes "make_pidstat_tables to_float machine_mem (Some lines) ''DB'' = Inr t"
  shows "\<exists>df. observed to_float machine_mem ''DB'' lines df \<and>
           distinct (map fst t) \<and> set (map fst t) = set (map fst df) \<and>
           (\<forall>r \<in> set t. \<forall>col \<in> {cpu, mem, kbs_read, kbs_written}.
              col (snd r) = (if 0 \<le> total col (group (fst r) df)
                             then Num (total col (group (fst r) df)) else Num 0))"
proof -
  from assms obtain df where obs: "observed to_float machine_mem ''DB'' lines df"
    and t: "t = map (\<lambda>s. (s, \<lparr>cpu = Num (max 0 (total cpu (group s df))),
                            mem = Num (max 0 (total mem (group s df))),
                            kbs_read = Num (max 0 (total kbs_read (group s df))),
                            kbs_written = Num (max 0 (total kbs_written (group s df)))\<rparr>))
              (sorted_list_of_set (fst ` set df))"
    by (elim database_table)
  have keys: "map fst t = sorted_list_of_set (fst ` set df)"
    unfolding t by (simp add: comp_def)
  have "distinct (map fst t)" and "set (map fst t) = set (map fst df)"
    unfolding keys by simp_all
  moreover have "col (snd r) = (if 0 \<le> total col (group (fst r) df)
                             then Num (total col (group (fst r) df)) else Num 0)"
    if "r \<in> set t" and "col \<in> {cpu, mem, kbs_read, kbs_written}" for r col
    using that unfolding t by (auto simp: max_def)
  ultimately show ?thesis using obs by blast
qed

theorem database_rows_witness:
  "make_pidstat_tables py_float 16 (Some (database_stats @ [other])) ''DB''
     = Inr [(0, \<lparr>cpu = Num 3, mem = Num (8 / 25), kbs_read = Num 0, kbs_written = Num 0\<rparr>),
            (1, \<lparr>cpu = Num 3, mem = Num (4 / 25), kbs_read = Num 0, kbs_written = Num 0\<rparr>)] \<and>
   (\<exists>df. observed py_float 16 ''DB'' (database_stats @ [other]) df \<and>
      set (map fst df) = {0, 1})"
proof -
  have v: "make_pidstat_tables py_float 16 (Some (database_stats @ [other])) ''DB''
     = Inr [(0, \<lparr>cpu = Num 3, mem = Num (8 / 25), kbs_read = Num 0, kbs_written = Num 0\<rparr>),
            (1, \<lparr>cpu = Num 3, mem = Num (4 / 25), kbs_read = Num 0, kbs_written = Num 0\<rparr>)]"
    by code_simp
  from database_rows [OF v] obtain df where "observed py_float 16 ''DB'' (database_stats @ [other]) df"
    and "set (map fst [(0 :: nat, \<lparr>cpu = Num 3, mem = Num (8 / 25), kbs_read = Num 0, kbs_written = Num 0\<rparr>),
            (1, \<lparr>cpu = Num 3, mem = Num (4 / 25), kbs_read = Num 0, kbs_written = Num 0\<rparr>)]) = set (map fst df)"
    by blast
  then have "\<exists>df. observed py_float 16 ''DB'' (database_stats @ [other]) df \<and> set (map fst df) = {0, 1}"
    by auto
  with v show ?thesis by blast
qed

text \<open>
  Claim C10. For the database table the negative values are replaced after the
  summation only. The table is, second by second in increasing order, the row of the
  values \<open>max 0 s\<close>, where \<open>s\<close> is the sum of the column over the \<^verbatim>\<open>hapi\<close> lines of
  the second: every second of the file has its row, a negative sum gives 0, and a
  negative value beside positive ones lowers their sum and is not replaced by 0 on its
  own.
\<close>

theorem clamp_after_sum:
  assumes "make_pidstat_tables to_float machine_mem (Some lines) ''DB'' = Inr t"
  shows "\<exists>df. observed to_float machine_mem ''DB'' lines df \<and>
           t = map (\<lambda>s. (s, \<lparr>cpu = Num (max 0 (total cpu (group s df))),
                             mem = Num (max 0 (total mem (group s df))),
                             kbs_read = Num (max 0 (total kbs_read (group s df))),
                             kbs_written = Num (max 0 (total kbs_written (group s df)))\<rparr>))
                 (sorted_list_of_set (fst ` set df))"
  using assms by (elim database_table) blast

theorem clamp_after_sum_witness:
  "make_pidstat_tables py_float 16 (Some deficit_file) ''DB''
     = Inr [(0, \<lparr>cpu = Num 3, mem = Num (8 / 25), kbs_read = Num 0, kbs_written = Num 0\<rparr>)] \<and>
   raw_frame py_float 16 deficit_file ''DB''
     = Inr [(0, \<lparr>cpu = Num 1, mem = Num (4 / 25), kbs_read = Num (- 5), kbs_written = Num 0\<rparr>),
            (0, \<lparr>cpu = Num 2, mem = Num (4 / 25), kbs_read = Num 2, kbs_written = Num 0\<rparr>)] \<and>
   (\<exists>df. observed py_float 16 ''DB'' deficit_file df \<and>
      [(0, \<lparr>cpu = Num 3, mem = Num (8 / 25), kbs_read = Num 0, kbs_written = Num 0\<rparr>)]
        = map (\<lambda>s. (s, \<lparr>cpu = Num (max 0 (total cpu (group s df))),
                         mem = Num (max 0 (total mem (group s df))),
                         kbs_read = Num (max 0 (total kbs_read (group s df))),
                         kbs_written = Num (max 0 (total kbs_written (group s df)))\<rparr>))
            (sorted_list_of_set (fst ` set df)))"
proof -
  have v: "make_pidstat_tables py_float 16 (Some deficit_file) ''DB''
     = Inr [(0, \<lparr>cpu = Num 3, mem = Num (8 / 25), kbs_read = Num 0, kbs_written = Num 0\<rparr>)]"
    by code_simp
  have "raw_frame py_float 16 deficit_file ''DB''
     = Inr [(0, \<lparr>cpu = Num 1, mem = Num (4 / 25), kbs_read = Num (- 5), kbs_written = Num 0\<rparr>),
            (0, \<lparr>cpu = Num 2, mem = Num (4 / 25), kbs_read = Num 2, kbs_written = Num 0\<rparr>)]"
    by code_simp
  with v clamp_after_sum [OF v] show ?thesis by blast
qed

subsection \<open>Negative values\<close>

lemma clamp_idem: "clamp (clamp v) = clamp v"
  by (cases v) (simp_all add: clamp_def)

lemma not_negative_clamp: "\<not> negative (clamp v)"
  by (cases v) (simp_all add: clamp_def)

text \<open>
  Claim C7. In the table that \<^verbatim>\<open>make_pidstat_tables\<close> returns, every value that was
  negative after the aggregation is 0 and every other value is unchanged, so no value
  of the table is negative; and replacing the negative values twice is the same as
  replacing them once. A line with the read rate \<^verbatim>\<open>-5.00\<close> gives the read rate 0.
\<close>

theorem negative_values_clamped:
  assumes "make_pidstat_tables to_float machine_mem (Some lines) type = Inr t"
  shows "\<exists>df. raw_frame to_float machine_mem lines type = Inr df \<and>
           map fst t = map fst (if type = ''DB'' then sum_by_second df else df) \<and>
           (\<forall>col \<in> {cpu, mem, kbs_read, kbs_written}.
              map (col \<circ> snd) t
                = map (\<lambda>r. if negative (col (snd r)) then Num 0 else col (snd r))
                    (if type = ''DB'' then sum_by_second df else df) \<and>
              (\<forall>r \<in> set t. \<not> negative (col (snd r)))) \<and>
           (\<forall>v. clamp (clamp v) = clamp v)"
proof -
  from assms obtain df where df: "raw_frame to_float machine_mem lines type = Inr df"
    and t: "t = map clamp_row (if type = ''DB'' then sum_by_second df else df)"
    by (auto elim: make_pidstat_tables_Inr)
  let ?agg = "if type = ''DB'' then sum_by_second df else df"
  have t': "t = map clamp_row ?agg" using t by simp
  have "map fst t = map fst ?agg"
    unfolding t' by (simp add: clamp_row_def comp_def)
  moreover have "map (col \<circ> snd) t
                = map (\<lambda>r. if negative (col (snd r)) then Num 0 else col (snd r)) ?agg \<and>
              (\<forall>r \<in> set t. \<not> negative (col (snd r)))"
    if "col \<in> {cpu, mem, kbs_read, kbs_written}" for col
  proof -
    have "col (snd (clamp_row r)) = clamp (col (snd r))" for r
      using that by (auto simp: clamp_row_def)
    then show ?thesis
      unfolding t' by (auto simp: not_negative_clamp clamp_def)
  qed
  ultimately show ?thesis using df clamp_idem by blast
qed

theorem negative_values_clamped_witness:
  "make_pidstat_tables py_float 16 (Some negative_file) ''Pipeline''
     = Inr [(0, \<lparr>cpu = Num 10, mem = Num (2 / 5), kbs_read = Num 0, kbs_written = Num 0\<rparr>)] \<and>
   raw_frame py_float 16 negative_file ''Pipeline''
     = Inr [(0, \<lparr>cpu = Num 10, mem = Num (2 / 5), kbs_read = Num (- 5), kbs_written = Num 0\<rparr>)] \<and>
   clamp (clamp (Num (- 5))) = clamp (Num (- 5))"
proof -
  have v: "make_pidstat_tables py_float 16 (Some negative_file) ''Pipeline''
     = Inr [(0, \<lparr>cpu = Num 10, mem = Num (2 / 5), kbs_read = Num 0, kbs_written = Num 0\<rparr>)]"
    by code_simp
  have "raw_frame py_float 16 negative_file ''Pipeline''
     = Inr [(0, \<lparr>cpu = Num 10, mem = Num (2 / 5), kbs_read = Num (- 5), kbs_written = Num 0\<rparr>)]"
    by code_simp
  with v negative_values_clamped [OF v] show ?thesis by blast
qed

subsection \<open>The seconds of a table\<close>

text \<open>
  Claim C3, as the specification states it: the seconds of every table are strictly
  increasing and unique, and for the pipeline and the server one row of a second is
  kept. The code removes duplicates for the database table only: two data lines of one
  second in a pipeline file are two rows of that second.
\<close>

theorem repeated_second_counterexample:
  "\<exists>t. make_pidstat_tables py_float 16 (Some twice_file) ''Pipeline'' = Inr t \<and>
        map fst t = [0, 0] \<and> \<not> distinct (map fst t) \<and>
        map (cpu \<circ> snd) t = [Num 10, Num 20]"
proof -
  have "case make_pidstat_tables py_float 16 (Some twice_file) ''Pipeline'' of
          Inl e \<Rightarrow> False
        | Inr t \<Rightarrow> map fst t = [0, 0] \<and> \<not> distinct (map fst t) \<and>
            map (cpu \<circ> snd) t = [Num 10, Num 20]"
    by code_simp
  then show ?thesis by (simp split: sum.splits)
qed

text \<open>
  Claim C3, amended. The seconds of every table are in non-decreasing order. For the
  database table they are strictly increasing, hence unique. For any other type nothing
  is removed and nothing is summed: the table is the frame of the observations with the
  negative values replaced, one row for each data line of the file, with the second and
  the values of that line.
\<close>

theorem seconds_of_table:
  assumes "make_pidstat_tables to_float machine_mem (Some lines) type = Inr t"
  shows "sorted (map fst t) \<and>
         (type = ''DB'' \<longrightarrow> sorted_wrt (<) (map fst t)) \<and>
         (type \<noteq> ''DB'' \<longrightarrow>
            length t = length (filter (kept type) lines) \<and>
            (\<exists>df. observed to_float machine_mem type lines df \<and> t = map clamp_row df))"
proof -
  from assms obtain df where df: "raw_frame to_float machine_mem lines type = Inr df"
    and t: "t = map clamp_row (if type = ''DB'' then sum_by_second df else df)"
    by (auto elim: make_pidstat_tables_Inr)
  from df obtain rows where rows: "scan_lines type 0 lines = Inr rows"
    and keys: "map fst df = map fst rows"
    by (rule raw_frame_keys)
  from scan_lines_rows [OF rows] keys have sorted: "sorted (map fst df)"
    and len: "length df = length (filter (kept type) lines)"
    by (auto dest: arg_cong [where f = length])
  have fst: "fst (clamp_row r) = fst r" for r
    by (simp add: clamp_row_def)
  show ?thesis
  proof (cases "type = ''DB''")
    case True
    with t have "map fst t = map fst (sum_by_second df)"
      by (simp add: fst)
    with sorted True show ?thesis
      by (simp add: strict_sorted_iff sum_by_second_sorted sum_by_second_distinct)
  next
    case False
    with t have t': "t = map clamp_row df"
      by simp
    then have "map fst t = map fst df"
      by (simp add: fst)
    with sorted have "sorted (map fst t)"
      by simp
    moreover have "length t = length (filter (kept type) lines)"
      using t' len by simp
    moreover have "\<exists>df. observed to_float machine_mem type lines df \<and> t = map clamp_row df"
      using t' raw_frame_observed [OF df] by blast
    ultimately show ?thesis
      using False by blast
  qed
qed

theorem seconds_of_table_witness:
  "make_pidstat_tables py_float 16 (Some twice_file) ''Pipeline''
     = Inr [(0, \<lparr>cpu = Num 10, mem = Num (2 / 5), kbs_read = Num 0, kbs_written = Num 0\<rparr>),
            (0, \<lparr>cpu = Num 20, mem = Num (2 / 5), kbs_read = Num 0, kbs_written = Num 0\<rparr>)] \<and>
   length (filter (kept ''Pipeline'') twice_file) = 2 \<and>
   make_pidstat_tables py_float 16 (Some database_stats) ''DB''
     = Inr [(0, \<lparr>cpu = Num 3, mem = Num (8 / 25), kbs_read = Num 0, kbs_written = Num 0\<rparr>),
            (1, \<lparr>cpu = Num 3, mem = Num (4 / 25), kbs_read = Num 0, kbs_written = Num 0\<rparr>)] \<and>
   sorted_wrt (<) [0, 1 :: nat]"
proof -
  have p: "make_pidstat_tables py_float 16 (Some twice_file) ''Pipeline''
     = Inr [(0, \<lparr>cpu = Num 10, mem = Num (2 / 5), kbs_read = Num 0, kbs_written = Num 0\<rparr>),
            (0, \<lparr>cpu = Num 20, mem = Num (2 / 5), kbs_read = Num 0, kbs_written = Num 0\<rparr>)]"
    by code_simp
  have d: "make_pidstat_tables py_float 16 (Some database_stats) ''DB''
     = Inr [(0, \<lparr>cpu = Num 3, mem = Num (8 / 25), kbs_read = Num 0, kbs_written = Num 0\<rparr>),
            (1, \<lparr>cpu = Num 3, mem = Num (4 / 25), kbs_read = Num 0, kbs_written = Num 0\<rparr>)]"
    by code_simp
  from seconds_of_table [OF p] seconds_of_table [OF d] p d show ?thesis by simp
qed

end
